theory Spec2Isabelle
  imports Complex_Main "HOL-Library.Multiset" "HOL-Library.Product_Lexorder"
begin

section \<open>Data model\<close>

text \<open>
  The analysis core of the trade analyzer (\<^verbatim>\<open>src/analysis/metrics.py\<close> and
  \<^verbatim>\<open>src/analysis/ranking.py\<close>) works on pandas tables of float64 numbers.
  Numbers are modelled as exact reals: rounding, overflow and signed zeros of float64 are
  outside the model. What float64 adds to the reals and the code depends on is kept:
  a cell of a table is a finite number, an infinity or NaN, and a division by zero
  produces an infinity or NaN as numpy does.
\<close>

datatype fval = Fin real | PInf | NInf | NaN

text \<open>
  One row of the trade table, with the columns the analysis reads. \<open>Port_IDs\<close> is the
  account identifier, \<open>timestamp\<close> a datetime64 value in nanoseconds since the epoch.
\<close>

record trade =
  Port_IDs :: int
  timestamp :: int
  quantity :: real
  realizedProfit :: real

text \<open>
  The trade table itself: its rows, and the derived column \<open>date\<close>, which is absent
  (\<open>None\<close>) in the table handed over by the loader.
\<close>

record trades_df =
  rows :: "trade list"
  date :: "int list option"

text \<open>One row of the table returned by \<open>calculate_metrics\<close>.\<close>

record metrics_row =
  roi :: fval
  total_pnl :: fval
  sharpe_ratio :: fval
  max_drawdown :: fval
  win_rate :: fval
  win_positions :: nat
  total_positions :: nat

text \<open>A pandas Series or DataFrame indexed by account: index and value, in index order.\<close>

type_synonym 'a series = "(int \<times> 'a) list"

type_synonym metrics_df = "metrics_row series"

datatype error = ValueError | KeyError

section \<open>pandas and numpy operations\<close>

text \<open>\<open>Series.unique()\<close>: the distinct values in order of first appearance.\<close>

fun unique :: "'a list \<Rightarrow> 'a list" where
  "unique [] = []"
| "unique (x # xs) = x # unique (filter (\<lambda>y. y \<noteq> x) xs)"

text \<open>The group keys of \<open>groupby\<close> (default \<open>sort=True\<close>): distinct, ascending.\<close>

definition group_keys :: "'k::linorder list \<Rightarrow> 'k list" where
  "group_keys ks = sort (remdups ks)"

text \<open>The rows of one account: \<open>trades_df[trades_df['Port_IDs'] == port_id]\<close>.\<close>

definition of_port :: "int \<Rightarrow> trade list \<Rightarrow> trade list" where
  "of_port p ts = filter (\<lambda>t. Port_IDs t = p) ts"

text \<open>Float division as numpy performs it on arrays: no exception, \<open>x/0\<close> is \<open>\<plusminus>inf\<close> or NaN.\<close>

definition fdiv :: "real \<Rightarrow> real \<Rightarrow> fval" where
  "fdiv x y = (if y \<noteq> 0 then Fin (x / y) else if x = 0 then NaN else if 0 < x then PInf else NInf)"

fun fsub :: "fval \<Rightarrow> real \<Rightarrow> fval" where
  "fsub (Fin x) c = Fin (x - c)"
| "fsub v c = v"

fun fabs :: "fval \<Rightarrow> fval" where
  "fabs (Fin x) = Fin \<bar>x\<bar>"
| "fabs PInf = PInf"
| "fabs NInf = PInf"
| "fabs NaN = NaN"

fun fmul :: "fval \<Rightarrow> real \<Rightarrow> fval" where
  "fmul (Fin x) c = Fin (x * c)"
| "fmul PInf c = (if 0 < c then PInf else if c < 0 then NInf else NaN)"
| "fmul NInf c = (if 0 < c then NInf else if c < 0 then PInf else NaN)"
| "fmul NaN c = NaN"

text \<open>The smaller of two cells, a NaN operand being skipped (\<open>skipna=True\<close>).\<close>

fun fmin :: "fval \<Rightarrow> fval \<Rightarrow> fval" where
  "fmin NaN b = b"
| "fmin a NaN = a"
| "fmin NInf b = NInf"
| "fmin a NInf = NInf"
| "fmin PInf b = b"
| "fmin a PInf = a"
| "fmin (Fin x) (Fin y) = Fin (min x y)"

text \<open>\<open>Series.min()\<close>: NaN cells are skipped; the result is NaN when nothing is left.\<close>

definition series_min :: "fval list \<Rightarrow> fval" where
  "series_min vs = foldr fmin vs NaN"

text \<open>\<open>fillna(0)\<close> and \<open>replace([inf, -inf], 0)\<close> on one cell.\<close>

fun fillna :: "fval \<Rightarrow> fval" where
  "fillna NaN = Fin 0"
| "fillna v = v"

fun replace_inf :: "fval \<Rightarrow> fval" where
  "replace_inf PInf = Fin 0"
| "replace_inf NInf = Fin 0"
| "replace_inf v = v"

text \<open>\<open>cumprod()\<close> and \<open>expanding().max()\<close> of a column.\<close>

fun cumprod_from :: "real \<Rightarrow> real list \<Rightarrow> real list" where
  "cumprod_from acc [] = []"
| "cumprod_from acc (x # xs) = (acc * x) # cumprod_from (acc * x) xs"

definition cumprod :: "real list \<Rightarrow> real list" where
  "cumprod xs = cumprod_from 1 xs"

fun expanding_max_from :: "real \<Rightarrow> real list \<Rightarrow> real list" where
  "expanding_max_from m [] = []"
| "expanding_max_from m (x # xs) = max m x # expanding_max_from (max m x) xs"

definition expanding_max :: "real list \<Rightarrow> real list" where
  "expanding_max xs = (case xs of [] \<Rightarrow> [] | x # ys \<Rightarrow> x # expanding_max_from x ys)"

text \<open>\<open>mean()\<close> and \<open>std()\<close> (sample standard deviation, \<open>ddof=1\<close>) of a column.\<close>

definition mean :: "real list \<Rightarrow> real" where
  "mean xs = sum_list xs / real (length xs)"

definition std :: "real list \<Rightarrow> real" where
  "std xs = sqrt (sum_list (map (\<lambda>x. (x - mean xs)\<^sup>2) xs) / (real (length xs) - 1))"

section \<open>metrics.py\<close>

subsection \<open>calculate_roi, calculate_pnl\<close>

definition calculate_roi :: "trade list \<Rightarrow> real series" where
  "calculate_roi ts =
     map (\<lambda>p. let profit = sum_list (map realizedProfit (of_port p ts));
                  qty = sum_list (map quantity (of_port p ts))
              in (p, if qty \<noteq> 0 then profit / qty * 100 else 0))
         (group_keys (map Port_IDs ts))"

definition calculate_pnl :: "trade list \<Rightarrow> real series" where
  "calculate_pnl ts =
     map (\<lambda>p. (p, sum_list (map realizedProfit (of_port p ts)))) (group_keys (map Port_IDs ts))"

subsection \<open>calculate_sharpe_ratio\<close>

text \<open>\<open>.dt.date\<close>: the calendar date of a timestamp, as the number of the day.\<close>

definition ns_per_day :: int where
  "ns_per_day = 86400000000000"

definition dt_date :: "int \<Rightarrow> int" where
  "dt_date ts = ts div ns_per_day"

text \<open>
  \<open>(1 + risk_free_rate) ** (1/365) - 1\<close>. The model is the real power, which is what
  Python computes for \<open>1 + risk_free_rate \<ge> 0\<close> (a negative base would leave the reals).
\<close>

definition daily_rf_rate :: "real \<Rightarrow> real" where
  "daily_rf_rate risk_free_rate = (1 + risk_free_rate) powr (1 / 365) - 1"

text \<open>
  The function assigns the column \<open>date\<close> of the table it is given, so the table is
  returned with the result. \<open>daily_returns\<close> is the grouped sum with its two keys as
  columns again (\<open>reset_index\<close>).
\<close>

definition daily_returns_of :: "trade list \<Rightarrow> int list \<Rightarrow> (int \<times> int \<times> real) list" where
  "daily_returns_of ts dates =
     (let keyed = zip (map Port_IDs ts) (zip dates (map realizedProfit ts))
      in map (\<lambda>(p, d). (p, d, sum_list (map (\<lambda>(p', d', r). r)
                                (filter (\<lambda>(p', d', r). p' = p \<and> d' = d) keyed))))
             (group_keys (map (\<lambda>(p', d', r). (p', d')) keyed)))"

definition sharpe_of_returns :: "real \<Rightarrow> real list \<Rightarrow> real" where
  "sharpe_of_returns risk_free_rate port_returns =
     (if length port_returns > 1 then
        let excess_returns = map (\<lambda>r. r - daily_rf_rate risk_free_rate) port_returns;
            s = std excess_returns
        in if s > 0 then sqrt 365 * (mean excess_returns / s) else 0
      else 0)"

definition calculate_sharpe_ratio :: "trades_df \<Rightarrow> real \<Rightarrow> trades_df \<times> real series" where
  "calculate_sharpe_ratio df risk_free_rate =
     (let dates = map (\<lambda>t. dt_date (timestamp t)) (rows df);
          df' = df\<lparr>date := Some dates\<rparr>;
          daily_returns = daily_returns_of (rows df') dates;
          sharpe_ratios =
            map (\<lambda>port_id.
                   (port_id, sharpe_of_returns risk_free_rate
                      (map (\<lambda>(p, d, r). r) (filter (\<lambda>(p, d, r). p = port_id) daily_returns))))
                (unique (map fst daily_returns))
      in (df', sharpe_ratios))"

subsection \<open>calculate_mdd\<close>

text \<open>
  \<open>sort_values('timestamp')\<close> is called with the default \<open>kind='quicksort'\<close>, which
  pandas documents as not stable. The sort is therefore a parameter of the model, and
  theorems assume of it what pandas promises: the result is a rearrangement of the rows,
  ascending in the key.
\<close>

definition sorts_by :: "('a \<Rightarrow> 'k::linorder) \<Rightarrow> ('a list \<Rightarrow> 'a list) \<Rightarrow> bool" where
  "sorts_by key srt = (\<forall>xs. mset (srt xs) = mset xs \<and> sorted (map key (srt xs)))"

definition drawdowns_of :: "real list \<Rightarrow> fval list" where
  "drawdowns_of cumulative_returns =
     map2 (\<lambda>c m. fsub (fdiv c m) 1) cumulative_returns (expanding_max cumulative_returns)"

definition mdd_of_trades :: "trade list \<Rightarrow> fval" where
  "mdd_of_trades port_trades =
     (if length port_trades > 0 then
        let cumulative_returns = cumprod (map (\<lambda>t. 1 + realizedProfit t) port_trades)
        in if length cumulative_returns > 0 then
             let drawdowns = drawdowns_of cumulative_returns
             in if length drawdowns > 0 then fmul (fabs (series_min drawdowns)) 100 else Fin 0
           else Fin 0
      else Fin 0)"

definition calculate_mdd :: "(trade list \<Rightarrow> trade list) \<Rightarrow> trade list \<Rightarrow> fval series" where
  "calculate_mdd sort_values ts =
     map (\<lambda>port_id. (port_id, mdd_of_trades (sort_values (of_port port_id ts))))
         (unique (map Port_IDs ts))"

subsection \<open>calculate_win_rate\<close>

text \<open>The columns of the result: \<open>realizedProfit\<close> (the wins), \<open>total_positions\<close>, \<open>win_rate\<close>.\<close>

definition calculate_win_rate :: "trade list \<Rightarrow> (nat \<times> nat \<times> real) series" where
  "calculate_win_rate ts =
     map (\<lambda>p. let wins = length (filter (\<lambda>t. realizedProfit t > 0) (of_port p ts));
                  total = length (of_port p ts)
              in (p, wins, total, if total > 0 then real wins / real total * 100 else 0))
         (group_keys (map Port_IDs ts))"

subsection \<open>calculate_metrics\<close>

text \<open>
  \<open>pd.DataFrame\<close> of a dict of Series: the index is the first Series' index when all
  are the same, and the sorted union otherwise; a cell whose Series lacks the label is NaN.
\<close>

definition frame_index :: "int list list \<Rightarrow> int list" where
  "frame_index ixs =
     (case ixs of [] \<Rightarrow> []
      | ix # rest \<Rightarrow> if list_all (\<lambda>j. j = ix) rest then ix else sort (remdups (concat ixs)))"

definition cell :: "real series \<Rightarrow> int \<Rightarrow> fval" where
  "cell s k = (case map_of s k of None \<Rightarrow> NaN | Some v \<Rightarrow> Fin v)"

definition fcell :: "fval series \<Rightarrow> int \<Rightarrow> fval" where
  "fcell s k = (case map_of s k of None \<Rightarrow> NaN | Some v \<Rightarrow> v)"

text \<open>A count column: a missing label would be NaN, which \<open>fillna(0)\<close> turns into 0.\<close>

definition count_cell :: "nat series \<Rightarrow> int \<Rightarrow> nat" where
  "count_cell s k = (case map_of s k of None \<Rightarrow> 0 | Some v \<Rightarrow> v)"

definition fillna_row :: "metrics_row \<Rightarrow> metrics_row" where
  "fillna_row r = r\<lparr>roi := fillna (roi r), total_pnl := fillna (total_pnl r),
     sharpe_ratio := fillna (sharpe_ratio r), max_drawdown := fillna (max_drawdown r),
     win_rate := fillna (win_rate r)\<rparr>"

text \<open>
  The result is the table of metrics together with the trade table as the call leaves it
  (Python hands the caller's table to \<open>calculate_sharpe_ratio\<close> by reference).
\<close>

definition calculate_metrics ::
  "(trade list \<Rightarrow> trade list) \<Rightarrow> trades_df \<Rightarrow> error + (trades_df \<times> metrics_df)" where
  "calculate_metrics sort_values df =
     (if length (rows df) = 0 then Inl ValueError
      else
        let roi_s = calculate_roi (rows df);
            pnl_s = calculate_pnl (rows df);
            (df1, sharpe_s) = calculate_sharpe_ratio df 0.02;
            mdd_s = calculate_mdd sort_values (rows df1);
            index = frame_index [map fst roi_s, map fst pnl_s, map fst sharpe_s, map fst mdd_s];
            win_metrics = calculate_win_rate (rows df1);
            metrics = map (\<lambda>k. (k, \<lparr>roi = cell roi_s k, total_pnl = cell pnl_s k,
                                    sharpe_ratio = cell sharpe_s k, max_drawdown = fcell mdd_s k,
                                    win_rate = cell (map (\<lambda>(p, w, n, wr). (p, wr)) win_metrics) k,
                                    win_positions = count_cell (map (\<lambda>(p, w, n, wr). (p, w)) win_metrics) k,
                                    total_positions = count_cell (map (\<lambda>(p, w, n, wr). (p, n)) win_metrics) k\<rparr>))
                          index
        in Inr (df1, map (\<lambda>(k, r). (k, fillna_row r)) metrics))"

section \<open>ranking.py\<close>

subsection \<open>normalize_metrics\<close>

text \<open>
  \<open>df.replace([np.inf, -np.inf], 0).fillna(0)\<close> on the copy: every cell is a finite
  number afterwards, so the cleaned columns are columns of reals.
\<close>

definition clean :: "fval \<Rightarrow> real" where
  "clean v = (case fillna (replace_inf v) of Fin x \<Rightarrow> x | _ \<Rightarrow> 0)"

definition clean_col :: "(metrics_row \<Rightarrow> fval) \<Rightarrow> metrics_df \<Rightarrow> real list" where
  "clean_col f metrics_df = map (\<lambda>(k, r). clean (f r)) metrics_df"

text \<open>
  \<open>values.max() != values.min()\<close>: on an empty column both are NaN, and NaN differs
  from NaN.
\<close>

definition has_spread :: "real list \<Rightarrow> bool" where
  "has_spread vs = (vs = [] \<or> Max (set vs) \<noteq> Min (set vs))"

definition normalize_col :: "real list \<Rightarrow> real list" where
  "normalize_col vs =
     (if has_spread vs
      then map (\<lambda>v. (v - Min (set vs)) / (Max (set vs) - Min (set vs))) vs
      else map (\<lambda>v. if hd vs > 0 then 1 else 0) vs)"

definition normalize_mdd :: "real list \<Rightarrow> real list" where
  "normalize_mdd mdd =
     (if has_spread mdd
      then map (\<lambda>v. 1 - (v - Min (set mdd)) / (Max (set mdd) - Min (set mdd))) mdd
      else map (\<lambda>v. 1) mdd)"

text \<open>The normalized table: its index and its columns by name, in the order of creation.\<close>

record normalized_df =
  n_index :: "int list"
  n_columns :: "(string \<times> real list) list"

definition normalize_metrics :: "metrics_df \<Rightarrow> normalized_df" where
  "normalize_metrics metrics_df =
     (let normalized_mdd = normalize_mdd (clean_col max_drawdown metrics_df)
      in \<lparr>n_index = map fst metrics_df,
           n_columns = [(''roi'', normalize_col (clean_col roi metrics_df)),
                        (''total_pnl'', normalize_col (clean_col total_pnl metrics_df)),
                        (''sharpe_ratio'', normalize_col (clean_col sharpe_ratio metrics_df)),
                        (''win_rate'', normalize_col (clean_col win_rate metrics_df)),
                        (''max_drawdown'', normalized_mdd)]\<rparr>)"

subsection \<open>get_feature_importance\<close>

definition get_feature_importance :: "(string \<times> real) list" where
  "get_feature_importance =
     [(''roi'', 0.25), (''total_pnl'', 0.20), (''sharpe_ratio'', 0.20),
      (''max_drawdown'', 0.15), (''win_rate'', 0.20)]"

subsection \<open>rank_accounts\<close>

text \<open>The loop \<open>weighted_scores += normalized_metrics[metric] * weight\<close>.\<close>

fun add_weighted ::
  "(string \<times> real list) list \<Rightarrow> (string \<times> real) list \<Rightarrow> real list \<Rightarrow> error + real list" where
  "add_weighted cols [] weighted_scores = Inr weighted_scores"
| "add_weighted cols ((metric, weight) # ws) weighted_scores =
     (case map_of cols metric of
        None \<Rightarrow> Inl KeyError
      | Some c \<Rightarrow> add_weighted cols ws (map2 (\<lambda>s v. s + v * weight) weighted_scores c))"

text \<open>\<open>round(2)\<close>: numpy rounds the scaled value to the nearest integer, halves to even.\<close>

definition rint :: "real \<Rightarrow> int" where
  "rint x = (let f = \<lfloor>x\<rfloor>
             in if x - of_int f < 1 / 2 then f
                else if x - of_int f > 1 / 2 then f + 1
                else if even f then f else f + 1)"

definition round2 :: "fval \<Rightarrow> fval" where
  "round2 v = (case v of Fin x \<Rightarrow> Fin (of_int (rint (x * 100)) / 100) | _ \<Rightarrow> v)"

record ranking_row =
  r_Port_IDs :: int
  Score :: real
  ROI :: fval
  Total_PnL :: fval
  Sharpe_Ratio :: fval
  Max_Drawdown :: fval
  Win_Rate :: fval
  Win_Positions :: nat
  Total_Positions :: nat

text \<open>\<open>head(n)\<close> is \<open>iloc[:n]\<close>: a negative \<open>n\<close> drops the last \<open>-n\<close> rows.\<close>

definition head :: "int \<Rightarrow> 'a list \<Rightarrow> 'a list" where
  "head n xs = (if 0 \<le> n then take (nat n) xs else take (length xs - nat (- n)) xs)"

definition rankings_of :: "metrics_df \<Rightarrow> real list \<Rightarrow> ranking_row list" where
  "rankings_of metrics_df weighted_scores =
     map2 (\<lambda>(k, r) s. \<lparr>r_Port_IDs = k, Score = s, ROI = round2 (roi r),
                        Total_PnL = round2 (total_pnl r), Sharpe_Ratio = round2 (sharpe_ratio r),
                        Max_Drawdown = round2 (max_drawdown r), Win_Rate = round2 (win_rate r),
                        Win_Positions = win_positions r, Total_Positions = total_positions r\<rparr>)
          metrics_df weighted_scores"

text \<open>
  \<open>sort_values('Score', ascending=False)\<close>, again with the default sort kind, is the
  parameter \<open>sort_values\<close>; the result pairs each selected row with its \<open>Rank\<close>.
\<close>

definition rank_accounts ::
  "(ranking_row list \<Rightarrow> ranking_row list) \<Rightarrow> metrics_df \<Rightarrow> int \<Rightarrow> error + (nat \<times> ranking_row) list" where
  "rank_accounts sort_values metrics_df top_n =
     (let normalized_metrics = normalize_metrics metrics_df;
          weights = get_feature_importance
      in case add_weighted (n_columns normalized_metrics) weights
                (map (\<lambda>k. 0) (map fst metrics_df)) of
           Inl e \<Rightarrow> Inl e
         | Inr weighted_scores \<Rightarrow>
             let rankings = head top_n (sort_values (rankings_of metrics_df weighted_scores))
             in Inr (zip [1..<length rankings + 1] rankings))"


section \<open>Reference definitions and example data\<close>

subsection \<open>Normalization and score as the specification words them\<close>

text \<open>
  Min-max scaling of one value within a population, "higher is better": the scaled value
  when the population has a spread, and otherwise 1 for a positive value and 0 for any other.
\<close>

definition minmax_spec :: "real list \<Rightarrow> real \<Rightarrow> real" where
  "minmax_spec population v =
     (if Max (set population) \<noteq> Min (set population)
      then (v - Min (set population)) / (Max (set population) - Min (set population))
      else if v > 0 then 1 else 0)"

text \<open>The inverted scaling of \<open>max_drawdown\<close>, "lower is better".\<close>

definition minmax_inverted_spec :: "real list \<Rightarrow> real \<Rightarrow> real" where
  "minmax_inverted_spec population v =
     (if Max (set population) \<noteq> Min (set population)
      then 1 - (v - Min (set population)) / (Max (set population) - Min (set population))
      else 1)"

text \<open>The composite score of one row of a metrics table: the weighted sum.\<close>

definition composite_score :: "metrics_df \<Rightarrow> metrics_row \<Rightarrow> real" where
  "composite_score metrics_df r =
       0.25 * minmax_spec (clean_col roi metrics_df) (clean (roi r))
     + 0.20 * minmax_spec (clean_col total_pnl metrics_df) (clean (total_pnl r))
     + 0.20 * minmax_spec (clean_col sharpe_ratio metrics_df) (clean (sharpe_ratio r))
     + 0.15 * minmax_inverted_spec (clean_col max_drawdown metrics_df) (clean (max_drawdown r))
     + 0.20 * minmax_spec (clean_col win_rate metrics_df) (clean (win_rate r))"

definition composite_scores :: "metrics_df \<Rightarrow> real list" where
  "composite_scores metrics_df = map (\<lambda>(k, r). composite_score metrics_df r) metrics_df"

text \<open>The table \<open>rankings\<close> after \<open>sort_values\<close> and before \<open>head\<close>.\<close>

definition sorted_rankings ::
  "(ranking_row list \<Rightarrow> ranking_row list) \<Rightarrow> metrics_df \<Rightarrow> ranking_row list" where
  "sorted_rankings srt metrics_df = srt (rankings_of metrics_df (composite_scores metrics_df))"

subsection \<open>Two sorts that meet the contract of \<open>sort_values\<close>\<close>

text \<open>A stable descending sort, and one that sorts ascending and reverses the result.\<close>

definition stable_sort_score :: "ranking_row list \<Rightarrow> ranking_row list" where
  "stable_sort_score rs = sort_key (\<lambda>r. - Score r) rs"


definition stable_sort_timestamp :: "trade list \<Rightarrow> trade list" where
  "stable_sort_timestamp ts = sort_key timestamp ts"

subsection \<open>Example tables\<close>

text \<open>Three accounts that differ in their total PnL only: 100, -50 and 100.\<close>

definition example_row :: "real \<Rightarrow> metrics_row" where
  "example_row pnl = \<lparr>roi = Fin 5, total_pnl = Fin pnl, sharpe_ratio = Fin 1,
     max_drawdown = Fin 10, win_rate = Fin 50, win_positions = 1, total_positions = 2\<rparr>"

definition example_metrics :: metrics_df where
  "example_metrics = [(1, example_row 100), (2, example_row (-50)), (3, example_row 100)]"

definition ranked_row :: "int \<Rightarrow> real \<Rightarrow> real \<Rightarrow> ranking_row" where
  "ranked_row k s pnl = \<lparr>r_Port_IDs = k, Score = s, ROI = Fin 5, Total_PnL = Fin pnl,
     Sharpe_Ratio = Fin 1, Max_Drawdown = Fin 10, Win_Rate = Fin 50,
     Win_Positions = 1, Total_Positions = 2\<rparr>"

subsection \<open>Metrics as the specification words them\<close>


text \<open>A cell that holds a number or NaN, but no infinity.\<close>

definition fin_or_nan :: "fval \<Rightarrow> bool" where
  "fin_or_nan v = (case v of Fin x \<Rightarrow> True | NaN \<Rightarrow> True | _ \<Rightarrow> False)"

text \<open>The calendar date of a trade.\<close>

definition trade_date :: "trade \<Rightarrow> int" where
  "trade_date t = dt_date (timestamp t)"

text \<open>The daily returns of one account: the realized profit summed per calendar date, in the
  order of the dates.\<close>

definition daily_sums :: "trade list \<Rightarrow> real list" where
  "daily_sums account_trades =
     map (\<lambda>d. sum_list (map realizedProfit (filter (\<lambda>t. trade_date t = d) account_trades)))
         (group_keys (map trade_date account_trades))"

text \<open>The Sharpe ratio of one account as the specification words it.\<close>

definition sharpe_spec :: "real \<Rightarrow> trade list \<Rightarrow> real" where
  "sharpe_spec annual_rf account_trades =
     (let excess = map (\<lambda>r. r - ((1 + annual_rf) powr (1 / 365) - 1)) (daily_sums account_trades)
      in if length (remdups (map trade_date account_trades)) < 2 then 0
         else if std excess = 0 then 0
         else sqrt 365 * mean excess / std excess)"

text \<open>The cumulative product of \<open>1 + realized_profit\<close> up to trade \<open>t\<close>, trades counted from 0.\<close>

definition cum_spec :: "real list \<Rightarrow> nat \<Rightarrow> real" where
  "cum_spec profits t = prod_list (map (\<lambda>x. 1 + x) (take (Suc t) profits))"

text \<open>The drawdown at trade \<open>t\<close>: the cumulative product over its running maximum, minus 1.\<close>

definition drawdown_spec :: "real list \<Rightarrow> nat \<Rightarrow> fval" where
  "drawdown_spec profits t =
     fsub (fdiv (cum_spec profits t) (Max (set (map (cum_spec profits) [0..<Suc t])))) 1"

text \<open>The maximum drawdown of a sequence of realized profits: 100 times the absolute value of
  the smallest drawdown.\<close>

definition mdd_spec :: "real list \<Rightarrow> fval" where
  "mdd_spec profits =
     fmul (fabs (series_min (map (drawdown_spec profits) [0..<length profits]))) 100"

text \<open>The row of one account in the table of metrics.\<close>

definition account_metrics :: "(trade list \<Rightarrow> trade list) \<Rightarrow> trade list \<Rightarrow> int \<Rightarrow> metrics_row" where
  "account_metrics srt ts p =
     (let mine = of_port p ts
      in \<lparr>roi = Fin (if sum_list (map quantity mine) = 0 then 0
                     else 100 * sum_list (map realizedProfit mine) / sum_list (map quantity mine)),
          total_pnl = Fin (sum_list (map realizedProfit mine)),
          sharpe_ratio = Fin (sharpe_spec 0.02 mine),
          max_drawdown = fillna (mdd_of_trades (srt mine)),
          win_rate = Fin (100 * real (length (filter (\<lambda>t. realizedProfit t > 0) mine))
                          / real (length mine)),
          win_positions = length (filter (\<lambda>t. realizedProfit t > 0) mine),
          total_positions = length mine\<rparr>)"

subsection \<open>Example trade tables\<close>

text \<open>
  Account 1 with the successive realized profits 1 and -1.6, and account 2 with a single
  trade of realized profit -1 and quantity 0; all on one day, no \<open>date\<close> column yet.
\<close>

definition example_trades :: trades_df where
  "example_trades =
     \<lparr>rows = [\<lparr>Port_IDs = 1, timestamp = 0, quantity = 2, realizedProfit = 1\<rparr>,
              \<lparr>Port_IDs = 2, timestamp = 5, quantity = 0, realizedProfit = - 1\<rparr>,
              \<lparr>Port_IDs = 1, timestamp = 1, quantity = 2, realizedProfit = - 1.6\<rparr>],
      date = None\<rparr>"



section \<open>Properties\<close>

subsection \<open>Grouping\<close>

lemma set_group_keys: "set (group_keys ks) = set ks"
  by (simp add: group_keys_def)

lemma distinct_group_keys: "distinct (group_keys ks)"
  by (simp add: group_keys_def)

lemma sorted_group_keys: "sorted (group_keys ks)"
  by (simp add: group_keys_def)

lemma map_of_tabulate:
  "map_of (map (\<lambda>k. (k, f k)) ks) p = (if p \<in> set ks then Some (f p) else None)"
  by (induction ks) auto

subsection \<open>Return on investment\<close>

text \<open>
  C9. The series returned by \<open>calculate_roi\<close> has an entry for exactly the accounts of
  the table, and the entry of an account is \<open>100 * sum(realizedProfit) / sum(quantity)\<close>
  over the account's trades, or 0 when the quantities sum to 0.
\<close>

theorem calculate_roi_value:
  "map_of (calculate_roi ts) p =
     (if p \<in> Port_IDs ` set ts
      then Some (if sum_list (map quantity (of_port p ts)) = 0 then 0
                 else 100 * sum_list (map realizedProfit (of_port p ts))
                        / sum_list (map quantity (of_port p ts)))
      else None)"
  unfolding calculate_roi_def Let_def
  by (simp add: map_of_tabulate set_group_keys)

subsection \<open>Normalization\<close>

lemma no_spread_all_equal:
  assumes "(vs :: real list) \<noteq> []" "Max (set vs) = Min (set vs)" "v \<in> set vs"
  shows "v = hd vs"
proof -
  have "Min (set vs) \<le> v" using assms(3) by (intro Min_le) auto
  moreover have "v \<le> Max (set vs)" using assms(3) by (intro Max_ge) auto
  moreover have "Min (set vs) \<le> hd vs" using assms(1) by (intro Min_le) auto
  moreover have "hd vs \<le> Max (set vs)" using assms(1) by (intro Max_ge) auto
  ultimately show ?thesis using assms(2) by linarith
qed

lemma normalize_col_spec: "normalize_col vs = map (minmax_spec vs) vs"
proof (cases "vs = []")
  case True
  then show ?thesis by (simp add: normalize_col_def)
next
  case False
  show ?thesis
  proof (cases "Max (set vs) = Min (set vs)")
    case True
    have "\<And>v. v \<in> set vs \<Longrightarrow> v = hd vs"
      using no_spread_all_equal [OF False True] .
    then show ?thesis using False True
      by (auto simp: normalize_col_def has_spread_def minmax_spec_def)
  next
    case neq: False
    then show ?thesis using False
      by (simp add: normalize_col_def has_spread_def minmax_spec_def)
  qed
qed

lemma normalize_mdd_spec: "normalize_mdd vs = map (minmax_inverted_spec vs) vs"
  by (cases "vs = []") (auto simp: normalize_mdd_def has_spread_def minmax_inverted_spec_def)






subsection \<open>Composite score\<close>

lemma map2_same:
  "map2 f (map g xs) (map h xs) = map (\<lambda>x. f (g x) (h x)) xs"
  by (simp add: list_eq_iff_nth_eq)

lemma weighted_scores_eq:
  "add_weighted (n_columns (normalize_metrics m)) get_feature_importance
     (map (\<lambda>k. 0) (map fst m)) = Inr (composite_scores m)"
  unfolding normalize_metrics_def get_feature_importance_def Let_def composite_scores_def
    composite_score_def normalize_col_spec normalize_mdd_spec clean_col_def
  by (simp add: map2_same split_beta algebra_simps)

lemma rank_accounts_eq:
  "rank_accounts srt m top_n =
     Inr (zip [1..<length (head top_n (sorted_rankings srt m)) + 1]
              (head top_n (sorted_rankings srt m)))"
  unfolding rank_accounts_def Let_def weighted_scores_eq sorted_rankings_def by simp


lemma sorts_by_mset: "sorts_by key srt \<Longrightarrow> mset (srt xs) = mset xs"
  by (simp add: sorts_by_def)

lemma sorts_by_sorted: "sorts_by key srt \<Longrightarrow> sorted (map key (srt xs))"
  by (simp add: sorts_by_def)

lemma sorts_by_length: "sorts_by key srt \<Longrightarrow> length (srt xs) = length xs"
  by (metis sorts_by_mset size_mset)



lemma length_composite_scores: "length (composite_scores m) = length m"
  by (simp add: composite_scores_def)

lemma length_rankings_of: "length (rankings_of m (composite_scores m)) = length m"
  by (simp add: rankings_of_def length_composite_scores)





lemma sorts_by_stable: "sorts_by (\<lambda>r. - Score r) stable_sort_score"
  by (simp add: sorts_by_def stable_sort_score_def)




subsection \<open>Selection and ranks\<close>




text \<open>
  C3 (amended). For \<open>top_n \<le> 0\<close>, \<open>rank_accounts\<close> raises no error. It returns the empty
  ranking for \<open>top_n = 0\<close>, and for \<open>top_n < 0\<close> the ranking of the sorted table without
  its last \<open>-top_n\<close> rows.
\<close>

theorem rank_accounts_nonpositive:
  assumes "sorts_by (\<lambda>r. - Score r) srt" and "top_n \<le> 0"
  shows "rank_accounts srt m top_n
           = Inr (zip [1..<(if top_n = 0 then 0 else length m - nat (- top_n)) + 1]
                      (take (if top_n = 0 then 0 else length m - nat (- top_n))
                         (sorted_rankings srt m)))"
proof -
  have len: "length (sorted_rankings srt m) = length m"
    unfolding sorted_rankings_def by (simp add: sorts_by_length [OF assms(1)] length_rankings_of)
  show ?thesis
    unfolding rank_accounts_eq using assms(2) len by (auto simp: head_def)
qed

theorem rank_accounts_nonpositive_witness:
  "sorts_by (\<lambda>r. - Score r) stable_sort_score \<and> (- 1 :: int) \<le> 0
   \<and> rank_accounts stable_sort_score example_metrics (- 1)
       = Inr [(1, ranked_row 1 1 100), (2, ranked_row 3 1 100)]"
proof -
  have ev: "zip [1..<(if (- 1 :: int) = 0 then 0 else length example_metrics - nat (- (- 1))) + 1]
              (take (if (- 1 :: int) = 0 then 0 else length example_metrics - nat (- (- 1)))
                 (sorted_rankings stable_sort_score example_metrics))
            = [(1, ranked_row 1 1 100), (2, ranked_row 3 1 100)]"
    by code_simp
  show ?thesis
    using rank_accounts_nonpositive [OF sorts_by_stable, of "- 1" example_metrics] sorts_by_stable
    by (simp only: ev) simp
qed

text \<open>With \<open>top_n = 0\<close> the call returns the empty ranking, not an error.\<close>

theorem rank_accounts_zero_counterexample:
  "rank_accounts stable_sort_score example_metrics 0 = Inr []"
  by code_simp

subsection \<open>Cumulative product and running maximum\<close>

lemma length_cumprod_from: "length (cumprod_from acc xs) = length xs"
  by (induction xs arbitrary: acc) auto

lemma length_expanding_max_from: "length (expanding_max_from m xs) = length xs"
  by (induction xs arbitrary: m) auto

lemma cumprod_from_nth:
  "t < length xs \<Longrightarrow> cumprod_from acc xs ! t = acc * prod_list (take (Suc t) xs)"
proof (induction xs arbitrary: acc t)
  case Nil
  then show ?case by simp
next
  case (Cons x xs)
  then show ?case by (cases t) (simp_all add: mult.assoc)
qed

lemma Max_insert_max:
  "finite S \<Longrightarrow> Max (insert (max m x) S) = Max (insert m (insert x (S :: real set)))"
  by (cases "S = {}") (simp_all add: max.assoc)

lemma expanding_max_from_nth:
  "t < length xs \<Longrightarrow> expanding_max_from m xs ! t = Max (insert m (set (take (Suc t) xs)))"
proof (induction xs arbitrary: m t)
  case Nil
  then show ?case by simp
next
  case (Cons x xs)
  show ?case
  proof (cases t)
    case 0
    then show ?thesis by (simp add: max.commute)
  next
    case (Suc n)
    then have "n < length xs" using Cons.prems by simp
    from Cons.IH [OF this, of "max m x"]
    have "expanding_max_from (max m x) xs ! n = Max (insert (max m x) (set (take (Suc n) xs)))" .
    also have "\<dots> = Max (insert m (insert x (set (take (Suc n) xs))))"
      by (rule Max_insert_max) simp
    finally show ?thesis using Suc by simp
  qed
qed

lemma expanding_max_nth:
  assumes "t < length xs"
  shows "expanding_max xs ! t = Max (set (take (Suc t) xs))"
proof (cases xs)
  case Nil
  with assms show ?thesis by simp
next
  case (Cons x ys)
  show ?thesis
  proof (cases t)
    case 0
    then show ?thesis using Cons by (simp add: expanding_max_def)
  next
    case (Suc n)
    then have "n < length ys" using assms Cons by simp
    from expanding_max_from_nth [OF this, of x] Suc Cons show ?thesis
      by (simp add: expanding_max_def)
  qed
qed

lemma length_expanding_max: "length (expanding_max xs) = length xs"
  by (cases xs) (simp_all add: expanding_max_def length_expanding_max_from)

lemma cumprod_nth:
  "t < length xs \<Longrightarrow> cumprod xs ! t = prod_list (take (Suc t) xs)"
  by (simp add: cumprod_def cumprod_from_nth)

lemma cumprod_cum_spec:
  assumes "t < length ps"
  shows "cumprod (map (\<lambda>x. 1 + x) ps) ! t = cum_spec ps t"
  using assms by (simp add: cumprod_nth cum_spec_def take_map)

lemma take_cumprod_set:
  assumes "t < length ps"
  shows "set (take (Suc t) (cumprod (map (\<lambda>x. 1 + x) ps))) = set (map (cum_spec ps) [0..<Suc t])"
proof -
  have len: "length (cumprod (map (\<lambda>x. 1 + x) ps)) = length ps"
    by (simp add: cumprod_def length_cumprod_from)
  have "take (Suc t) (cumprod (map (\<lambda>x. 1 + x) ps)) = map (cum_spec ps) [0..<Suc t]"
  proof (rule nth_equalityI)
    show "length (take (Suc t) (cumprod (map (\<lambda>x. 1 + x) ps))) = length (map (cum_spec ps) [0..<Suc t])"
      using assms len by simp
    fix i assume "i < length (take (Suc t) (cumprod (map (\<lambda>x. 1 + x) ps)))"
    then have i: "i < Suc t" "i < length ps" using len by simp_all
    then have "map (cum_spec ps) [0..<Suc t] ! i = cum_spec ps i"
      by (metis add_0 nth_map_upt diff_zero)
    then show "take (Suc t) (cumprod (map (\<lambda>x. 1 + x) ps)) ! i = map (cum_spec ps) [0..<Suc t] ! i"
      using i cumprod_cum_spec [of i ps] by simp
  qed
  then show ?thesis by simp
qed

lemma drawdowns_of_spec:
  "drawdowns_of (cumprod (map (\<lambda>x. 1 + x) ps)) = map (drawdown_spec ps) [0..<length ps]"
proof (rule nth_equalityI)
  have len: "length (cumprod (map (\<lambda>x. 1 + x) ps)) = length ps"
    by (simp add: cumprod_def length_cumprod_from)
  show "length (drawdowns_of (cumprod (map (\<lambda>x. 1 + x) ps))) = length (map (drawdown_spec ps) [0..<length ps])"
    by (simp add: drawdowns_of_def len length_expanding_max)
  fix i assume "i < length (drawdowns_of (cumprod (map (\<lambda>x. 1 + x) ps)))"
  then have i: "i < length ps"
    by (simp add: drawdowns_of_def len length_expanding_max)
  then have il: "i < length (cumprod (map (\<lambda>x. 1 + x) ps))" using len by simp
  show "drawdowns_of (cumprod (map (\<lambda>x. 1 + x) ps)) ! i = map (drawdown_spec ps) [0..<length ps] ! i"
    using i il
    by (simp add: drawdowns_of_def length_expanding_max expanding_max_nth cumprod_cum_spec
          take_cumprod_set drawdown_spec_def del: upt_Suc set_map take_Suc)
qed

subsection \<open>Drawdowns\<close>


lemma fin_or_nan_simps [simp]:
  "fin_or_nan (Fin x)" "fin_or_nan NaN" "\<not> fin_or_nan PInf" "\<not> fin_or_nan NInf"
  by (simp_all add: fin_or_nan_def)

lemma drawdown_step_fin_or_nan:
  "(m = 0 \<longrightarrow> c = 0) \<Longrightarrow> fin_or_nan (fsub (fdiv c m) 1)"
  by (auto simp: fdiv_def fin_or_nan_def)

lemma drawdowns_from_fin_or_nan:
  "(m = 0 \<longrightarrow> acc = 0) \<Longrightarrow>
   list_all fin_or_nan
     (map2 (\<lambda>c m. fsub (fdiv c m) 1) (cumprod_from acc xs)
        (expanding_max_from m (cumprod_from acc xs)))"
proof (induction xs arbitrary: acc m)
  case Nil
  then show ?case by simp
next
  case (Cons x xs)
  have inv: "max m (acc * x) = 0 \<longrightarrow> acc * x = 0"
    using Cons.prems by (auto simp: max_def split: if_splits)
  from Cons.IH [OF inv] drawdown_step_fin_or_nan [OF inv]
  show ?case by simp
qed

lemma drawdowns_of_fin_or_nan: "list_all fin_or_nan (drawdowns_of (cumprod xs))"
proof (cases xs)
  case Nil
  then show ?thesis by (simp add: drawdowns_of_def cumprod_def expanding_max_def)
next
  case (Cons x ys)
  have inv: "x = 0 \<longrightarrow> x = 0" by simp
  from drawdowns_from_fin_or_nan [OF inv, of ys] drawdown_step_fin_or_nan [OF inv]
  show ?thesis using Cons
    by (simp add: drawdowns_of_def cumprod_def expanding_max_def)
qed

lemma fmin_fin_or_nan: "fin_or_nan a \<Longrightarrow> fin_or_nan b \<Longrightarrow> fin_or_nan (fmin a b)"
  by (cases a; cases b) (simp_all add: fin_or_nan_def)

lemma series_min_fin_or_nan: "list_all fin_or_nan vs \<Longrightarrow> fin_or_nan (series_min vs)"
  by (induction vs) (simp_all add: series_min_def fmin_fin_or_nan)

lemma series_min_upper:
  "list_all fin_or_nan vs \<Longrightarrow> Fin y \<in> set vs \<Longrightarrow> \<exists>x. series_min vs = Fin x \<and> x \<le> y"
proof (induction vs)
  case Nil
  then show ?case by simp
next
  case (Cons v vs)
  have tl: "fin_or_nan (series_min vs)"
    using Cons.prems(1) by (simp add: series_min_fin_or_nan)
  show ?case
  proof (cases "v = Fin y")
    case True
    then show ?thesis using tl
      by (cases "series_min vs") (auto simp: series_min_def fin_or_nan_def)
  next
    case False
    then have "Fin y \<in> set vs" using Cons.prems(2) by simp
    with Cons.IH Cons.prems(1) obtain x where x: "series_min vs = Fin x" "x \<le> y" by auto
    have "fin_or_nan v" using Cons.prems(1) by simp
    then show ?thesis using x
      by (cases v) (auto simp: series_min_def fin_or_nan_def)
  qed
qed

lemma series_min_all_nan: "list_all (\<lambda>v. v = NaN) vs \<Longrightarrow> series_min vs = NaN"
  by (induction vs) (simp_all add: series_min_def)

lemma mdd_of_trades_eq:
  "ts \<noteq> [] \<Longrightarrow>
   mdd_of_trades ts
     = fmul (fabs (series_min (drawdowns_of (cumprod (map (\<lambda>t. 1 + realizedProfit t) ts))))) 100"
  by (cases ts)
     (simp_all add: mdd_of_trades_def Let_def drawdowns_of_def cumprod_def expanding_max_def)


lemma mdd_of_trades_spec:
  "ts \<noteq> [] \<Longrightarrow> mdd_of_trades ts = mdd_spec (map realizedProfit ts)"
  using drawdowns_of_spec [of "map realizedProfit ts"]
  by (simp add: mdd_of_trades_eq mdd_spec_def comp_def)

lemma mdd_of_trades_nonneg:
  assumes "ts \<noteq> []" "realizedProfit (hd ts) \<noteq> - 1"
  shows "\<exists>v. mdd_of_trades ts = Fin v \<and> 0 \<le> v"
proof -
  obtain t rest where ts: "ts = t # rest" using assms(1) by (cases ts) auto
  let ?ds = "drawdowns_of (cumprod (map (\<lambda>t. 1 + realizedProfit t) ts))"
  have nz: "1 + realizedProfit t \<noteq> 0" using assms(2) ts by auto
  have "hd ?ds = Fin 0" "?ds \<noteq> []"
    using nz by (simp_all add: ts drawdowns_of_def cumprod_def expanding_max_def fdiv_def)
  then have "Fin 0 \<in> set ?ds" by (metis hd_in_set)
  from series_min_upper [OF drawdowns_of_fin_or_nan this]
  obtain x where x: "series_min ?ds = Fin x" "x \<le> 0" by auto
  show ?thesis
    unfolding mdd_of_trades_eq [OF assms(1)] using x by simp
qed

lemma cumprod_from_zero: "cumprod_from 0 xs = replicate (length xs) 0"
  by (induction xs) simp_all

lemma expanding_max_from_zero: "expanding_max_from 0 (replicate n 0) = replicate n 0"
  by (induction n) simp_all

lemma series_min_replicate_nan: "series_min (replicate n NaN) = NaN"
  by (induction n) (simp_all add: series_min_def)

lemma mdd_of_trades_nan:
  assumes "ts \<noteq> []" "realizedProfit (hd ts) = - 1"
  shows "mdd_of_trades ts = NaN"
proof -
  obtain t rest where ts: "ts = t # rest" using assms(1) by (cases ts) auto
  let ?ds = "drawdowns_of (cumprod (map (\<lambda>t. 1 + realizedProfit t) ts))"
  have z: "1 + realizedProfit t = 0" using assms(2) ts by auto
  have c: "cumprod (map (\<lambda>t. 1 + realizedProfit t) ts) = replicate (Suc (length rest)) 0"
    using z by (simp add: ts cumprod_def cumprod_from_zero)
  have "expanding_max (replicate (Suc (length rest)) 0) = replicate (Suc (length rest)) (0 :: real)"
    by (simp add: expanding_max_def expanding_max_from_zero)
  then have "?ds = replicate (Suc (length rest)) NaN"
    unfolding c drawdowns_of_def by (simp add: fdiv_def)
  then have "series_min ?ds = NaN"
    by (simp only: series_min_replicate_nan)
  then show ?thesis
    unfolding mdd_of_trades_eq [OF assms(1)] by simp
qed

lemma mdd_of_trades_single:
  "realizedProfit t \<noteq> - 1 \<Longrightarrow> mdd_of_trades [t] = Fin 0"
  by (simp add: mdd_of_trades_def cumprod_def drawdowns_of_def expanding_max_def fdiv_def
        series_min_def)

subsection \<open>Daily returns\<close>

lemma set_unique: "set (unique xs) = set xs"
  by (induction xs rule: unique.induct) auto

lemma distinct_unique: "distinct (unique xs)"
  by (induction xs rule: unique.induct) (auto simp: set_unique)

lemma keyed_eq:
  "zip (map Port_IDs ts) (zip (map trade_date ts) (map realizedProfit ts))
     = map (\<lambda>t. (Port_IDs t, trade_date t, realizedProfit t)) ts"
  by (induction ts) simp_all

lemma daily_returns_of_eq:
  "daily_returns_of ts (map trade_date ts)
     = map (\<lambda>(p, d). (p, d, sum_list (map realizedProfit
                                    (filter (\<lambda>t. trade_date t = d) (of_port p ts)))))
           (group_keys (map (\<lambda>t. (Port_IDs t, trade_date t)) ts))"
proof -
  have f: "\<And>p d. map (\<lambda>(p', d', r). r) (filter (\<lambda>(p', d', r). p' = p \<and> d' = d)
              (map (\<lambda>t. (Port_IDs t, trade_date t, realizedProfit t)) ts))
          = map realizedProfit (filter (\<lambda>t. trade_date t = d) (of_port p ts))"
    by (induction ts) (auto simp: of_port_def)
  show ?thesis
    unfolding daily_returns_of_def Let_def keyed_eq f
    by (simp add: comp_def)
qed

lemma sorted_snd_if_fst_const:
  "sorted xs \<Longrightarrow> \<forall>x \<in> set xs. fst x = p \<Longrightarrow> sorted (map snd (xs :: ('a::linorder \<times> 'b::linorder) list))"
proof (induction xs)
  case Nil
  then show ?case by simp
next
  case (Cons x xs)
  have "snd x \<le> snd y" if "y \<in> set xs" for y
  proof -
    from that Cons.prems have "x \<le> y" "fst x = fst y" by auto
    then show ?thesis by (cases x; cases y) (auto simp: less_eq_prod_def)
  qed
  with Cons show ?case by auto
qed

lemma distinct_snd_if_fst_const:
  "distinct xs \<Longrightarrow> \<forall>x \<in> set xs. fst x = p \<Longrightarrow> distinct (map snd xs)"
  by (induction xs) (auto simp: image_iff prod_eq_iff)

lemma group_keys_filter_fst:
  "map snd (filter (\<lambda>k. fst k = p) (group_keys pairs))
     = group_keys (map snd (filter (\<lambda>k. fst k = p) pairs))"
proof (rule sorted_distinct_set_unique)
  show "sorted (map snd (filter (\<lambda>k. fst k = p) (group_keys pairs)))"
  proof (rule sorted_snd_if_fst_const [of _ p])
    show "sorted (filter (\<lambda>k. fst k = p) (group_keys pairs))"
      using sorted_filter [of "\<lambda>x. x" "group_keys pairs" "\<lambda>k. fst k = p"]
      by (simp add: sorted_group_keys)
  qed simp
  show "distinct (map snd (filter (\<lambda>k. fst k = p) (group_keys pairs)))"
    by (rule distinct_snd_if_fst_const [of _ p]) (simp_all add: distinct_group_keys)
  show "sorted (group_keys (map snd (filter (\<lambda>k. fst k = p) pairs)))"
    by (rule sorted_group_keys)
  show "distinct (group_keys (map snd (filter (\<lambda>k. fst k = p) pairs)))"
    by (rule distinct_group_keys)
  show "set (map snd (filter (\<lambda>k. fst k = p) (group_keys pairs)))
          = set (group_keys (map snd (filter (\<lambda>k. fst k = p) pairs)))"
    by (simp add: set_group_keys)
qed

lemma filter_port_tabulated:
  "map (\<lambda>(p', d, r). r) (filter (\<lambda>(p', d, r). p' = p) (map (\<lambda>(p, d). (p, d, g p d)) ks))
     = map (g p) (map snd (filter (\<lambda>k. fst k = p) ks))"
  by (induction ks) auto

lemma port_returns_eq:
  "map (\<lambda>(p', d, r). r) (filter (\<lambda>(p', d, r). p' = p) (daily_returns_of ts (map trade_date ts)))
     = daily_sums (of_port p ts)"
proof -
  let ?g = "\<lambda>p d. sum_list (map realizedProfit (filter (\<lambda>t. trade_date t = d) (of_port p ts)))"
  let ?keys = "group_keys (map (\<lambda>t. (Port_IDs t, trade_date t)) ts)"
  have "map (\<lambda>(p', d, r). r) (filter (\<lambda>(p', d, r). p' = p) (map (\<lambda>(p, d). (p, d, ?g p d)) ?keys))
          = map (?g p) (map snd (filter (\<lambda>k. fst k = p) ?keys))"
    by (rule filter_port_tabulated)
  also have "map snd (filter (\<lambda>k. fst k = p) ?keys)
          = group_keys (map snd (filter (\<lambda>k. fst k = p) (map (\<lambda>t. (Port_IDs t, trade_date t)) ts)))"
    by (rule group_keys_filter_fst)
  also have "map snd (filter (\<lambda>k. fst k = p) (map (\<lambda>t. (Port_IDs t, trade_date t)) ts))
          = map trade_date (of_port p ts)"
    by (induction ts) (auto simp: of_port_def)
  also have "map (?g p) (group_keys (map trade_date (of_port p ts))) = daily_sums (of_port p ts)"
  proof -
    have "filter (\<lambda>t. trade_date t = d) (of_port p (of_port p ts))
            = filter (\<lambda>t. trade_date t = d) (of_port p ts)" for d
      by (simp add: of_port_def)
    then show ?thesis by (simp add: daily_sums_def)
  qed
  finally show ?thesis by (simp only: daily_returns_of_eq)
qed

lemma ports_daily_returns:
  "set (map fst (daily_returns_of ts (map trade_date ts))) = Port_IDs ` set ts"
  unfolding daily_returns_of_eq by (force simp: set_group_keys case_prod_unfold)

lemma calculate_sharpe_ratio_eq:
  "calculate_sharpe_ratio df rf
     = (df\<lparr>date := Some (map trade_date (rows df))\<rparr>,
        map (\<lambda>p. (p, sharpe_of_returns rf (daily_sums (of_port p (rows df)))))
            (unique (map fst (daily_returns_of (rows df) (map trade_date (rows df))))))"
proof -
  have d: "map (\<lambda>t. dt_date (timestamp t)) (rows df) = map trade_date (rows df)"
    by (simp add: trade_date_def)
  show ?thesis
    unfolding calculate_sharpe_ratio_def Let_def d
    by (simp add: port_returns_eq)
qed


subsection \<open>The table of metrics\<close>

lemma std_nonneg: "1 < length xs \<Longrightarrow> 0 \<le> std xs"
proof -
  assume "1 < length xs"
  then have "0 < real (length xs) - 1" by simp
  moreover have "0 \<le> sum_list (map (\<lambda>x. (x - mean xs)\<^sup>2) xs)"
    by (rule sum_list_nonneg) auto
  ultimately show ?thesis by (simp add: std_def)
qed

lemma length_daily_sums: "length (daily_sums ts) = length (remdups (map trade_date ts))"
  by (simp add: daily_sums_def group_keys_def)

lemma sharpe_of_returns_spec: "sharpe_of_returns rf (daily_sums ts) = sharpe_spec rf ts"
proof (cases "length (remdups (map trade_date ts)) < 2")
  case True
  then show ?thesis
    by (simp add: sharpe_of_returns_def sharpe_spec_def length_daily_sums Let_def)
next
  case False
  let ?ex = "map (\<lambda>r. r - daily_rf_rate rf) (daily_sums ts)"
  have "1 < length ?ex" using False by (simp add: length_daily_sums)
  then have "0 \<le> std ?ex" by (rule std_nonneg)
  then have "(0 < std ?ex) = (std ?ex \<noteq> 0)" by auto
  then show ?thesis using False
    by (simp add: sharpe_of_returns_def sharpe_spec_def length_daily_sums Let_def daily_rf_rate_def)
qed

lemma frame_index_eq:
  assumes "set a = set xs" "set b = set xs"
  shows "frame_index [group_keys xs, group_keys xs, a, b] = group_keys xs"
proof (cases "list_all (\<lambda>j. j = group_keys xs) [group_keys xs, a, b]")
  case True
  then show ?thesis by (simp add: frame_index_def)
next
  case False
  have "sort (remdups (concat [group_keys xs, group_keys xs, a, b])) = group_keys xs"
    by (rule sorted_distinct_set_unique)
       (auto simp: sorted_group_keys distinct_group_keys set_group_keys assms)
  then show ?thesis using False by (simp add: frame_index_def)
qed

lemma map_fst_tabulate: "map fst (map (\<lambda>p. (p, f p)) ks) = ks"
  by (induction ks) simp_all

lemma calculate_roi_tab:
  "calculate_roi ts = map (\<lambda>p. (p, if sum_list (map quantity (of_port p ts)) = 0 then 0
            else 100 * sum_list (map realizedProfit (of_port p ts)) / sum_list (map quantity (of_port p ts))))
          (group_keys (map Port_IDs ts))"
  by (simp add: calculate_roi_def Let_def)

lemma win_col_tab:
  "map (\<lambda>(p, w, n, wr). (p, g w n wr)) (calculate_win_rate ts)
     = map (\<lambda>p. (p, g (length (filter (\<lambda>t. realizedProfit t > 0) (of_port p ts)))
                       (length (of_port p ts))
                       (if length (of_port p ts) > 0
                        then real (length (filter (\<lambda>t. realizedProfit t > 0) (of_port p ts)))
                             / real (length (of_port p ts)) * 100 else 0)))
           (group_keys (map Port_IDs ts))"
  by (simp add: calculate_win_rate_def Let_def)

lemma of_port_nonempty: "p \<in> Port_IDs ` set ts \<Longrightarrow> of_port p ts \<noteq> []"
  by (auto simp: of_port_def filter_empty_conv)

lemma calculate_metrics_eq:
  assumes "rows df \<noteq> []"
  shows "calculate_metrics srt df
           = Inr (df\<lparr>date := Some (map trade_date (rows df))\<rparr>,
                  map (\<lambda>p. (p, account_metrics srt (rows df) p))
                      (group_keys (map Port_IDs (rows df))))"
proof -
  let ?ts = "rows df"
  let ?G = "group_keys (map Port_IDs ?ts)"
  let ?U = "unique (map fst (daily_returns_of ?ts (map trade_date ?ts)))"
  have setU: "set ?U = set (map Port_IDs ?ts)"
    unfolding set_unique ports_daily_returns by simp
  have setU2: "set (unique (map Port_IDs ?ts)) = set (map Port_IDs ?ts)"
    by (rule set_unique)
  have idx: "frame_index [?G, ?G, ?U, unique (map Port_IDs ?ts)] = ?G"
    by (rule frame_index_eq [OF setU setU2])
  have row: "\<lparr>roi = cell (calculate_roi ?ts) k, total_pnl = cell (calculate_pnl ?ts) k,
          sharpe_ratio = cell (map (\<lambda>p. (p, sharpe_of_returns 0.02 (daily_sums (of_port p ?ts)))) ?U) k,
          max_drawdown = fcell (calculate_mdd srt ?ts) k,
          win_rate = cell (map (\<lambda>(p, w, n, wr). (p, wr)) (calculate_win_rate ?ts)) k,
          win_positions = count_cell (map (\<lambda>(p, w, n, wr). (p, w)) (calculate_win_rate ?ts)) k,
          total_positions = count_cell (map (\<lambda>(p, w, n, wr). (p, n)) (calculate_win_rate ?ts)) k\<rparr>
        = (account_metrics srt ?ts k)\<lparr>max_drawdown := mdd_of_trades (srt (of_port k ?ts))\<rparr>"
    if "k \<in> set ?G" for k
  proof -
    from that have k: "k \<in> Port_IDs ` set ?ts" by (simp add: set_group_keys)
    then have ne: "of_port k ?ts \<noteq> []" by (rule of_port_nonempty)
    have kU: "k \<in> set ?U" using k setU by simp
    have kU2: "k \<in> set (unique (map Port_IDs ?ts))" using k setU2 by simp
    show ?thesis
      using k ne kU kU2 that
      by (simp add: cell_def fcell_def count_cell_def calculate_roi_tab calculate_pnl_def
            win_col_tab calculate_mdd_def map_of_tabulate account_metrics_def Let_def
            sharpe_of_returns_spec del: set_map)
  qed
  have fill: "fillna_row ((account_metrics srt ?ts k)\<lparr>max_drawdown := mdd_of_trades (srt (of_port k ?ts))\<rparr>)
                = account_metrics srt ?ts k" for k
    by (simp add: fillna_row_def account_metrics_def Let_def)
  have "calculate_metrics srt df
          = Inr (df\<lparr>date := Some (map trade_date ?ts)\<rparr>,
                 map (\<lambda>k. (k, fillna_row ((account_metrics srt ?ts k)
                                \<lparr>max_drawdown := mdd_of_trades (srt (of_port k ?ts))\<rparr>))) ?G)"
  proof -
    have f1: "map fst (calculate_roi ?ts) = ?G"
      unfolding calculate_roi_tab by (rule map_fst_tabulate)
    have f2: "map fst (calculate_pnl ?ts) = ?G"
      unfolding calculate_pnl_def by (rule map_fst_tabulate)
    have f3: "map fst (calculate_mdd srt ?ts) = unique (map Port_IDs ?ts)"
      unfolding calculate_mdd_def by (rule map_fst_tabulate)
    show ?thesis
      unfolding calculate_metrics_def calculate_sharpe_ratio_eq
      using assms row
      by (simp add: Let_def map_fst_tabulate f1 f2 f3 idx cong: map_cong del: set_map)
  qed
  then show ?thesis by (simp only: fill)
qed

subsection \<open>Sorts and the example table\<close>

lemma sorts_by_fixes_sorted:
  assumes "sorts_by key srt" "sorted (map key xs)" "distinct (map key xs)"
  shows "srt xs = xs"
proof -
  have ms: "mset (srt xs) = mset xs" using assms(1) by (simp add: sorts_by_def)
  have "mset (map key (srt xs)) = mset (map key xs)"
    using arg_cong [OF ms, of "image_mset key"] by simp
  moreover have "sorted (map key (srt xs))" using assms(1) by (simp add: sorts_by_def)
  ultimately have "sort (map key xs) = map key (srt xs)"
    by (rule properties_for_sort)
  moreover have "sort (map key xs) = map key xs"
    using assms(2) by (simp add: sort_key_id_if_sorted)
  ultimately have eq: "map key (srt xs) = map key xs" by simp
  have "set (srt xs) = set xs" using ms by (metis set_mset_mset)
  moreover have "inj_on key (set xs)" using assms(3) by (simp add: distinct_map)
  ultimately have "inj_on key (set (srt xs) \<union> set xs)" by simp
  with eq show ?thesis by (simp add: inj_on_map_eq_map)
qed

lemma sorts_by_singleton: "sorts_by key srt \<Longrightarrow> srt [x] = [x]"
  by (rule sorts_by_fixes_sorted) simp_all

lemma sorts_by_stable_timestamp: "sorts_by timestamp stable_sort_timestamp"
  by (simp add: sorts_by_def stable_sort_timestamp_def)


lemma group_keys_example: "group_keys (map Port_IDs (rows example_trades)) = [1, 2]"
  by (simp add: group_keys_def example_trades_def)

lemma of_port_example:
  "of_port 1 (rows example_trades)
     = [\<lparr>Port_IDs = 1, timestamp = 0, quantity = 2, realizedProfit = 1\<rparr>,
        \<lparr>Port_IDs = 1, timestamp = 1, quantity = 2, realizedProfit = - 1.6\<rparr>]"
  "of_port 2 (rows example_trades)
     = [\<lparr>Port_IDs = 2, timestamp = 5, quantity = 0, realizedProfit = - 1\<rparr>]"
  by (simp_all add: of_port_def example_trades_def)

lemma trade_date_example:
  "map trade_date (rows example_trades) = [0, 0, 0]"
  by (simp add: example_trades_def trade_date_def dt_date_def ns_per_day_def)

lemma mdd_example:
  "mdd_of_trades [\<lparr>Port_IDs = 1, timestamp = 0, quantity = 2, realizedProfit = 1\<rparr>,
        \<lparr>Port_IDs = 1, timestamp = 1, quantity = 2, realizedProfit = - 1.6\<rparr>] = Fin 160"
  "mdd_of_trades [\<lparr>Port_IDs = 2, timestamp = 5, quantity = 0, realizedProfit = - 1\<rparr>] = NaN"
  by code_simp+

lemma account_metrics_example:
  "account_metrics stable_sort_timestamp (rows example_trades) 1
     = \<lparr>roi = Fin (- 15), total_pnl = Fin (- 0.6), sharpe_ratio = Fin 0, max_drawdown = Fin 160,
            win_rate = Fin 50, win_positions = 1, total_positions = 2\<rparr>"
  "account_metrics stable_sort_timestamp (rows example_trades) 2
     = \<lparr>roi = Fin 0, total_pnl = Fin (- 1), sharpe_ratio = Fin 0, max_drawdown = Fin 0,
            win_rate = Fin 0, win_positions = 0, total_positions = 1\<rparr>"
  unfolding account_metrics_def of_port_example Let_def
  using mdd_example
  by (simp_all add: stable_sort_timestamp_def sharpe_spec_def trade_date_def
        dt_date_def ns_per_day_def)

lemma calculate_metrics_example:
  "calculate_metrics stable_sort_timestamp example_trades
  = Inr (example_trades\<lparr>date := Some [0, 0, 0]\<rparr>,
     [(1, \<lparr>roi = Fin (- 15), total_pnl = Fin (- 0.6), sharpe_ratio = Fin 0, max_drawdown = Fin 160,
            win_rate = Fin 50, win_positions = 1, total_positions = 2\<rparr>),
      (2, \<lparr>roi = Fin 0, total_pnl = Fin (- 1), sharpe_ratio = Fin 0, max_drawdown = Fin 0,
            win_rate = Fin 0, win_positions = 0, total_positions = 1\<rparr>)])"
proof -
  have ne: "rows example_trades \<noteq> []" by (simp add: example_trades_def)
  show ?thesis
    unfolding calculate_metrics_eq [OF ne] group_keys_example trade_date_example
    by (simp add: account_metrics_example)
qed

lemma sorts_by_nonempty: "sorts_by key srt \<Longrightarrow> xs \<noteq> [] \<Longrightarrow> srt xs \<noteq> []"
  by (metis sorts_by_length length_0_conv)

lemma map_of_calculate_mdd:
  "map_of (calculate_mdd srt ts) p
     = (if p \<in> Port_IDs ` set ts then Some (mdd_of_trades (srt (of_port p ts))) else None)"
  unfolding calculate_mdd_def by (simp add: map_of_tabulate set_unique)

lemma map_of_calculate_metrics:
  assumes "p \<in> Port_IDs ` set (rows df)"
  shows "\<exists>df' m. calculate_metrics srt df = Inr (df', m)
           \<and> map_of m p = Some (account_metrics srt (rows df) p)"
proof -
  have ne: "rows df \<noteq> []" using assms by auto
  have "map_of (map (\<lambda>p. (p, account_metrics srt (rows df) p))
                    (group_keys (map Port_IDs (rows df)))) p
          = Some (account_metrics srt (rows df) p)"
    using assms by (simp add: map_of_tabulate set_group_keys)
  then show ?thesis unfolding calculate_metrics_eq [OF ne] by blast
qed

lemma fillna_mdd_nonneg: "\<exists>v. fillna (mdd_of_trades ts) = Fin v \<and> 0 \<le> v"
proof (cases "ts = []")
  case True
  then show ?thesis by (simp add: mdd_of_trades_def)
next
  case False
  show ?thesis
  proof (cases "realizedProfit (hd ts) = - 1")
    case True
    from mdd_of_trades_nan [OF False True] show ?thesis by simp
  next
    case neq: False
    from mdd_of_trades_nonneg [OF False neq] show ?thesis by auto
  qed
qed

lemma fillna_mdd_single: "fillna (mdd_of_trades [t]) = Fin 0"
proof (cases "realizedProfit t = - 1")
  case True
  then have "mdd_of_trades [t] = NaN" by (intro mdd_of_trades_nan) simp_all
  then show ?thesis by simp
next
  case False
  then show ?thesis by (simp add: mdd_of_trades_single)
qed


subsection \<open>The table of metrics: rows, errors, finiteness\<close>



subsection \<open>Maximum drawdown\<close>

text \<open>
  C8 (amended). For an account of the table, \<open>calculate_mdd\<close> sorts the account's trades
  by timestamp and returns \<open>100 * abs(min(drawdown))\<close>, where the drawdown at a trade is
  the cumulative product of \<open>1 + realized_profit\<close> over its running maximum, minus 1, and
  the minimum skips undefined (NaN) drawdowns. When the first trade in sorted order has a
  realized profit other than -1 the result is a number \<open>\<ge> 0\<close>, and it is 0 for an account
  with a single such trade. When that profit is -1 every cumulative product is 0, every
  drawdown is 0/0, and the result is NaN. In the table of \<open>calculate_metrics\<close>, where NaN
  is replaced by 0, \<open>max_drawdown\<close> is always a number \<open>\<ge> 0\<close> and is 0 for every account
  with a single trade.
\<close>

theorem calculate_mdd_value:
  assumes "sorts_by timestamp srt" and "p \<in> Port_IDs ` set ts"
  shows "mset (srt (of_port p ts)) = mset (of_port p ts)
       \<and> sorted (map timestamp (srt (of_port p ts)))
       \<and> map_of (calculate_mdd srt ts) p
           = Some (mdd_spec (map realizedProfit (srt (of_port p ts))))
       \<and> (realizedProfit (hd (srt (of_port p ts))) \<noteq> - 1 \<longrightarrow>
            (\<exists>v. map_of (calculate_mdd srt ts) p = Some (Fin v) \<and> 0 \<le> v))
       \<and> (realizedProfit (hd (srt (of_port p ts))) = - 1 \<longrightarrow>
            map_of (calculate_mdd srt ts) p = Some NaN)
       \<and> (length (of_port p ts) = 1 \<and> realizedProfit (hd (of_port p ts)) \<noteq> - 1 \<longrightarrow>
            map_of (calculate_mdd srt ts) p = Some (Fin 0))
       \<and> (\<exists>df' m r. calculate_metrics srt \<lparr>rows = ts, date = d\<rparr> = Inr (df', m)
             \<and> map_of m p = Some r
             \<and> max_drawdown r = fillna (mdd_spec (map realizedProfit (srt (of_port p ts))))
             \<and> (\<exists>v. max_drawdown r = Fin v \<and> 0 \<le> v)
             \<and> (length (of_port p ts) = 1 \<longrightarrow> max_drawdown r = Fin 0))"
proof -
  let ?mine = "of_port p ts"
  let ?sorted = "srt ?mine"
  have ne: "?mine \<noteq> []" using assms(2) by (rule of_port_nonempty)
  have sne: "?sorted \<noteq> []" using assms(1) ne by (rule sorts_by_nonempty)
  have look: "map_of (calculate_mdd srt ts) p = Some (mdd_of_trades ?sorted)"
    using assms(2) by (simp add: map_of_calculate_mdd)
  have spec: "mdd_of_trades ?sorted = mdd_spec (map realizedProfit ?sorted)"
    using sne by (rule mdd_of_trades_spec)
  have single: "?sorted = ?mine" if "length ?mine = 1"
  proof -
    from that obtain t where "?mine = [t]" by (cases ?mine) auto
    then show ?thesis using sorts_by_singleton [OF assms(1)] by simp
  qed
  have c1: "mset ?sorted = mset ?mine" using assms(1) by (rule sorts_by_mset)
  have c2: "sorted (map timestamp ?sorted)" using assms(1) by (rule sorts_by_sorted)
  have c3: "map_of (calculate_mdd srt ts) p = Some (mdd_spec (map realizedProfit ?sorted))"
    using look spec by simp
  have c4: "realizedProfit (hd ?sorted) \<noteq> - 1 \<longrightarrow>
            (\<exists>v. map_of (calculate_mdd srt ts) p = Some (Fin v) \<and> 0 \<le> v)"
    using mdd_of_trades_nonneg [OF sne] look by auto
  have c5: "realizedProfit (hd ?sorted) = - 1 \<longrightarrow> map_of (calculate_mdd srt ts) p = Some NaN"
    using mdd_of_trades_nan [OF sne] look by auto
  have c6: "length ?mine = 1 \<and> realizedProfit (hd ?mine) \<noteq> - 1 \<longrightarrow>
            map_of (calculate_mdd srt ts) p = Some (Fin 0)"
  proof (intro impI, elim conjE)
    assume l: "length ?mine = 1" and nz: "realizedProfit (hd ?mine) \<noteq> - 1"
    from l obtain t where t: "?mine = [t]" by (cases ?mine) auto
    with nz have "mdd_of_trades ?mine = Fin 0" by (simp add: mdd_of_trades_single)
    then show "map_of (calculate_mdd srt ts) p = Some (Fin 0)"
      using look single [OF l] by simp
  qed
  have c7: "\<exists>df' m r. calculate_metrics srt \<lparr>rows = ts, date = d\<rparr> = Inr (df', m)
             \<and> map_of m p = Some r
             \<and> max_drawdown r = fillna (mdd_spec (map realizedProfit ?sorted))
             \<and> (\<exists>v. max_drawdown r = Fin v \<and> 0 \<le> v)
             \<and> (length ?mine = 1 \<longrightarrow> max_drawdown r = Fin 0)"
  proof -
    have "p \<in> Port_IDs ` set (rows \<lparr>rows = ts, date = d\<rparr>)" using assms(2) by simp
    from map_of_calculate_metrics [OF this, of srt]
    obtain df' m where m: "calculate_metrics srt \<lparr>rows = ts, date = d\<rparr> = Inr (df', m)"
        "map_of m p = Some (account_metrics srt ts p)"
      by auto
    let ?r = "account_metrics srt ts p"
    have md: "max_drawdown ?r = fillna (mdd_of_trades ?sorted)"
      by (simp add: account_metrics_def Let_def)
    have r1: "max_drawdown ?r = fillna (mdd_spec (map realizedProfit ?sorted))"
      using md spec by simp
    have r2: "\<exists>v. max_drawdown ?r = Fin v \<and> 0 \<le> v"
      unfolding md by (rule fillna_mdd_nonneg)
    have r3: "length ?mine = 1 \<longrightarrow> max_drawdown ?r = Fin 0"
    proof
      assume l: "length ?mine = 1"
      from l obtain t where t: "?mine = [t]" by (cases ?mine) auto
      show "max_drawdown ?r = Fin 0"
        unfolding md t sorts_by_singleton [OF assms(1)] by (rule fillna_mdd_single)
    qed
    from m r1 r2 r3 show ?thesis by blast
  qed
  show ?thesis
    by (intro conjI c1 c2 c3 c4 c5 c6 c7)
qed

theorem calculate_mdd_value_witness:
  "sorts_by timestamp stable_sort_timestamp \<and> 1 \<in> Port_IDs ` set (rows example_trades)
   \<and> map_of (calculate_mdd stable_sort_timestamp (rows example_trades)) 1
       = Some (mdd_spec (map realizedProfit
                 (stable_sort_timestamp (of_port 1 (rows example_trades)))))
   \<and> mdd_spec (map realizedProfit (stable_sort_timestamp (of_port 1 (rows example_trades))))
       = Fin 160"
proof -
  have h: "1 \<in> Port_IDs ` set (rows example_trades)" by (simp add: example_trades_def)
  have v: "mdd_spec (map realizedProfit (stable_sort_timestamp (of_port 1 (rows example_trades))))
             = Fin 160"
    by code_simp
  note t = calculate_mdd_value [OF sorts_by_stable_timestamp h, of None]
  have "map_of (calculate_mdd stable_sort_timestamp (rows example_trades)) 1
       = Some (mdd_spec (map realizedProfit
                 (stable_sort_timestamp (of_port 1 (rows example_trades)))))"
    by (rule t [THEN conjunct2, THEN conjunct2, THEN conjunct1])
  with sorts_by_stable_timestamp h v show ?thesis by (intro conjI)
qed

text \<open>
  The claim as it stands fails: for the account whose only trade has realized profit -1,
  \<open>calculate_mdd\<close> returns NaN, which is neither \<open>\<ge> 0\<close> nor 0.
\<close>

theorem calculate_mdd_nan_counterexample:
  "calculate_mdd stable_sort_timestamp
     [\<lparr>Port_IDs = 2, timestamp = 5, quantity = 0, realizedProfit = - 1\<rparr>] = [(2, NaN)]"
  by code_simp

text \<open>
  C10. \<open>max_drawdown\<close> is not bounded by 100. Account 1 of the example table has the
  successive realized profits 1 and -1.6, the second below -1: the cumulative products are
  2 and -1.2, the drawdowns 0 and -1.6, and \<open>calculate_mdd\<close> returns 160, which is also
  the account's \<open>max_drawdown\<close> in the table of \<open>calculate_metrics\<close>.
\<close>

theorem max_drawdown_exceeds_100:
  assumes "sorts_by timestamp srt"
  shows "map realizedProfit (srt (of_port 1 (rows example_trades))) = [1, - 1.6]
       \<and> cumprod (map (\<lambda>x. 1 + x) [1, - 1.6]) = [2, - 1.2]
       \<and> drawdowns_of [2, - 1.2] = [Fin 0, Fin (- 1.6)]
       \<and> map_of (calculate_mdd srt (rows example_trades)) 1 = Some (Fin 160)
       \<and> (\<exists>df' m r. calculate_metrics srt example_trades = Inr (df', m)
             \<and> map_of m 1 = Some r \<and> max_drawdown r = Fin 160)
       \<and> (100 :: real) < 160"
proof -
  have h: "1 \<in> Port_IDs ` set (rows example_trades)" by (simp add: example_trades_def)
  have kept: "srt (of_port 1 (rows example_trades)) = of_port 1 (rows example_trades)"
    using assms by (rule sorts_by_fixes_sorted) (simp_all add: of_port_example)
  note kept' = kept [unfolded of_port_example]
  have a: "map realizedProfit (srt (of_port 1 (rows example_trades))) = [1, - 1.6]"
    unfolding kept by (simp add: of_port_example)
  have b: "cumprod (map (\<lambda>x. 1 + x) [1, - 1.6]) = [2, - 1.2]"
    by (simp add: cumprod_def)
  have c: "drawdowns_of [2, - 1.2] = [Fin 0, Fin (- 1.6)]"
    by (simp add: drawdowns_of_def expanding_max_def fdiv_def)
  have m: "mdd_of_trades (srt (of_port 1 (rows example_trades))) = Fin 160"
    unfolding of_port_example kept' by (rule mdd_example)
  have d: "map_of (calculate_mdd srt (rows example_trades)) 1 = Some (Fin 160)"
    using h m by (simp add: map_of_calculate_mdd)
  from map_of_calculate_metrics [OF h, of srt]
  obtain df' mt where mt: "calculate_metrics srt example_trades = Inr (df', mt)"
      "map_of mt 1 = Some (account_metrics srt (rows example_trades) 1)"
    by auto
  have "max_drawdown (account_metrics srt (rows example_trades) 1) = Fin 160"
    using m by (simp add: account_metrics_def Let_def)
  with mt have e: "\<exists>df' m r. calculate_metrics srt example_trades = Inr (df', m)
             \<and> map_of m 1 = Some r \<and> max_drawdown r = Fin 160"
    by blast
  have f: "(100 :: real) < 160" by simp
  show ?thesis by (intro conjI a b c d e f)
qed

theorem max_drawdown_exceeds_100_witness:
  "sorts_by timestamp stable_sort_timestamp
   \<and> map_of (calculate_mdd stable_sort_timestamp (rows example_trades)) 1 = Some (Fin 160)
   \<and> (\<exists>df' m r. calculate_metrics stable_sort_timestamp example_trades = Inr (df', m)
         \<and> map_of m 1 = Some r \<and> max_drawdown r = Fin 160)"
proof -
  note t = max_drawdown_exceeds_100 [OF sorts_by_stable_timestamp]
  have a: "map_of (calculate_mdd stable_sort_timestamp (rows example_trades)) 1
                    = Some (Fin 160)"
    by (rule t [THEN conjunct2, THEN conjunct2, THEN conjunct2, THEN conjunct1])
  have b: "\<exists>df' m r. calculate_metrics stable_sort_timestamp example_trades = Inr (df', m)
         \<and> map_of m 1 = Some r \<and> max_drawdown r = Fin 160"
    by (rule t [THEN conjunct2, THEN conjunct2, THEN conjunct2, THEN conjunct2, THEN conjunct1])
  from sorts_by_stable_timestamp a b show ?thesis by (intro conjI)
qed

subsection \<open>Sharpe ratio\<close>



subsection \<open>Effect on the trade table\<close>

text \<open>
  C4. \<open>calculate_metrics\<close> does not leave the trade table as it was: the call of
  \<open>calculate_sharpe_ratio\<close> assigns the column \<open>date\<close> of the caller's table. The example
  table has no such column before the call and has it afterwards. (\<open>normalize_metrics\<close>
  works on a copy, and \<open>rank_accounts\<close> only reads its argument.)
\<close>

theorem calculate_metrics_adds_date_column:
  "date example_trades = None
   \<and> calculate_metrics stable_sort_timestamp example_trades
       = Inr (example_trades\<lparr>date := Some [0, 0, 0]\<rparr>,
              [(1, \<lparr>roi = Fin (- 15), total_pnl = Fin (- 0.6), sharpe_ratio = Fin 0,
                     max_drawdown = Fin 160, win_rate = Fin 50, win_positions = 1,
                     total_positions = 2\<rparr>),
               (2, \<lparr>roi = Fin 0, total_pnl = Fin (- 1), sharpe_ratio = Fin 0,
                     max_drawdown = Fin 0, win_rate = Fin 0, win_positions = 0,
                     total_positions = 1\<rparr>)])
   \<and> example_trades\<lparr>date := Some [0, 0, 0]\<rparr> \<noteq> example_trades"
proof -
  have a: "date example_trades = None" by (simp add: example_trades_def)
  have c: "example_trades\<lparr>date := Some [0, 0, 0]\<rparr> \<noteq> example_trades"
    by (simp add: example_trades_def)
  show ?thesis by (intro conjI a calculate_metrics_example c)
qed

end
